theory Spec2Isabelle
  imports Main
begin

section \<open>Python string operations used by docs/github_readme.py\<close>

text \<open>
  A Python \<open>str\<close> is modelled as a \<open>string\<close> whose characters are the code points
  below 256. The operations below are the library methods the script calls, with the
  arguments it calls them with.
\<close>

definition startswith :: "string \<Rightarrow> string \<Rightarrow> bool" where
  "startswith s p = (take (length p) s = p)"

definition endswith :: "string \<Rightarrow> string \<Rightarrow> bool" where
  "endswith s p = (length p \<le> length s \<and> drop (length s - length p) s = p)"

text \<open>\<open>str.isspace\<close> on one character: TAB, LF, VT, FF, CR, FS, GS, RS, US, space, NEL, NBSP.\<close>

definition isspace :: "char \<Rightarrow> bool" where
  "isspace c = (c \<in> set [CHR 0x09, CHR 0x0A, CHR 0x0B, CHR 0x0C, CHR 0x0D,
                           CHR 0x1C, CHR 0x1D, CHR 0x1E, CHR 0x1F, CHR 0x20,
                           CHR 0x85, CHR 0xA0])"

text \<open>\<open>s.strip()\<close>: leading and trailing whitespace removed.\<close>

definition strip :: "string \<Rightarrow> string" where
  "strip s = rev (dropWhile isspace (rev (dropWhile isspace s)))"

text \<open>
  \<open>s.replace(old, new)\<close>: every non-overlapping occurrence of \<open>old\<close>, scanning from the
  left. For an empty \<open>old\<close> Python puts \<open>new\<close> before every character and at the end.
\<close>

fun replace :: "string \<Rightarrow> string \<Rightarrow> string \<Rightarrow> string" where
  "replace [] old new = (if old = [] then new else [])"
| "replace (c # cs) old new =
     (if old = [] then new @ c # replace cs old new
      else if startswith (c # cs) old then new @ replace (drop (length old) (c # cs)) old new
      else c # replace cs old new)"

text \<open>
  \<open>s.rsplit(maxsplit=1)\<close>: split on runs of whitespace, from the right, at most once.
  Trailing whitespace is skipped, the last token is cut off, the whitespace before it is
  skipped, and what is left (if anything) is the first element, leading whitespace kept.
\<close>

definition last_token :: "string \<Rightarrow> string" where
  "last_token s = rev (takeWhile (\<lambda>c. \<not> isspace c) (dropWhile isspace (rev s)))"

definition rsplit_max1 :: "string \<Rightarrow> string list" where
  "rsplit_max1 s =
     (let r = dropWhile isspace (rev s) in
      if r = [] then []
      else let remaining = dropWhile isspace (dropWhile (\<lambda>c. \<not> isspace c) r) in
           if remaining = [] then [last_token s] else [rev remaining, last_token s])"

text \<open>
  \<open>text.splitlines(True)\<close>: the lines of \<open>text\<close> with their terminators kept. A line ends
  at CR LF, or at one of LF, VT, FF, CR, FS, GS, RS, NEL. The first argument is the line
  read so far.
\<close>

definition is_linebreak :: "char \<Rightarrow> bool" where
  "is_linebreak c = (c \<in> set [CHR 0x0A, CHR 0x0B, CHR 0x0C, CHR 0x0D,
                               CHR 0x1C, CHR 0x1D, CHR 0x1E, CHR 0x85])"

fun splitlines_from :: "string \<Rightarrow> string \<Rightarrow> string list" where
  "splitlines_from cur [] = (if cur = [] then [] else [cur])"
| "splitlines_from cur (c # cs) =
     (if c = CHR 0x0D \<and> take 1 cs = [CHR 0x0A]
        then (cur @ [c, CHR 0x0A]) # splitlines_from [] (drop 1 cs)
      else if is_linebreak c then (cur @ [c]) # splitlines_from [] cs
      else splitlines_from (cur @ [c]) cs)"

definition splitlines_keepends :: "string \<Rightarrow> string list" where
  "splitlines_keepends text = splitlines_from [] text"

text \<open>
  \<open>open(file_name)\<close> opens the file in text mode with universal newlines: on reading,
  CR LF and a CR alone both become LF. Iterating over the open file then gives the lines
  of the translated text, each ending at LF, the last one possibly without it. The
  content of a file is its decoded text before this translation.
\<close>

fun universal_newlines :: "string \<Rightarrow> string" where
  "universal_newlines [] = []"
| "universal_newlines (c # cs) =
     (if c = CHR 0x0D then
        (if take 1 cs = [CHR 0x0A] then CHR 0x0A # universal_newlines (drop 1 cs)
         else CHR 0x0A # universal_newlines cs)
      else c # universal_newlines cs)"

fun file_lines_from :: "string \<Rightarrow> string \<Rightarrow> string list" where
  "file_lines_from cur [] = (if cur = [] then [] else [cur])"
| "file_lines_from cur (c # cs) =
     (if c = CHR 0x0A then (cur @ [c]) # file_lines_from [] cs
      else file_lines_from (cur @ [c]) cs)"

definition file_lines :: "string \<Rightarrow> string list" where
  "file_lines content = file_lines_from [] (universal_newlines content)"

text \<open>
  \<open>fmt % arg\<close> for a format with one \<open>%s\<close> conversion and a \<open>str\<close> argument, the only
  shape the script uses: the argument takes the place of the conversion.
\<close>

fun percent :: "string \<Rightarrow> string \<Rightarrow> string" where
  "percent [] arg = []"
| "percent (c # rest) arg =
     (if c = CHR ''%'' \<and> take 1 rest = ''s'' then arg @ drop 1 rest
      else c # percent rest arg)"

section \<open>Generators\<close>

text \<open>
  A generator is the finite sequence of what its successive \<open>next()\<close> calls do: yield a
  value, stop, or raise.
\<close>

datatype error = FileNotFoundError | ValueError | TypeError

datatype 'a gen = Done | Yield 'a "'a gen" | Raise error

datatype 'a pulled = StopIteration | Item 'a | Raised error

text \<open>\<open>pull n g\<close> is the outcome of the call number \<open>n\<close> (from 0) of \<open>next(g)\<close>.\<close>

fun pull :: "nat \<Rightarrow> 'a gen \<Rightarrow> 'a pulled" where
  "pull n Done = StopIteration"
| "pull 0 (Raise e) = Raised e"
| "pull (Suc n) (Raise e) = StopIteration"
| "pull 0 (Yield x g) = Item x"
| "pull (Suc n) (Yield x g) = pull n g"

text \<open>\<open>yield from g\<close>, followed by the rest \<open>k\<close> of the generator's body.\<close>

primrec yield_from :: "'a gen \<Rightarrow> 'a gen \<Rightarrow> 'a gen" where
  "yield_from Done k = k"
| "yield_from (Yield x g) k = Yield x (yield_from g k)"
| "yield_from (Raise e) k = Raise e"

primrec of_list :: "'a list \<Rightarrow> 'a gen" where
  "of_list [] = Done"
| "of_list (x # xs) = Yield x (of_list xs)"

text \<open>The values a generator yields, and the exception that ends it, if any.\<close>

primrec items :: "'a gen \<Rightarrow> 'a list" where
  "items Done = []"
| "items (Yield x g) = x # items g"
| "items (Raise e) = []"

primrec raised :: "'a gen \<Rightarrow> error option" where
  "raised Done = None"
| "raised (Yield x g) = raised g"
| "raised (Raise e) = Some e"

section \<open>The script\<close>

definition FILE_HEADER :: string where
  "FILE_HEADER = ''.. Source defined in %s\<newline>\<newline>''"

text \<open>
  The environment of the script is a parameter of the model: \<open>relpath_project p\<close> is
  \<open>relpath(p, PROJECT())\<close>, \<open>SOURCE\<close> is the path function of the same name, \<open>this_file\<close> is
  \<open>__file__\<close>, and \<open>fs\<close> gives the content of each file that exists.
\<close>

definition read_file :: "(string \<Rightarrow> string) \<Rightarrow> (string \<Rightarrow> string option) \<Rightarrow> string \<Rightarrow> string gen" where
  "read_file relpath_project fs file_name =
     Yield (percent FILE_HEADER (relpath_project file_name))
       (case fs file_name of
          None \<Rightarrow> Raise FileNotFoundError
        | Some content \<Rightarrow> yield_from (of_list (file_lines content)) Done)"

definition read_source ::
  "(string \<Rightarrow> string) \<Rightarrow> (string \<Rightarrow> string) \<Rightarrow> (string \<Rightarrow> string option) \<Rightarrow> string \<Rightarrow> string gen" where
  "read_source SOURCE relpath_project fs file_name =
     yield_from (read_file relpath_project fs (SOURCE file_name)) Done"

definition read_text :: "(string \<Rightarrow> string) \<Rightarrow> string \<Rightarrow> string \<Rightarrow> string gen" where
  "read_text relpath_project this_file text =
     Yield (percent FILE_HEADER (relpath_project this_file))
       (yield_from (of_list (splitlines_keepends text)) Done)"

primrec concatenate :: "string gen gen \<Rightarrow> string gen" where
  "concatenate Done = Done"
| "concatenate (Yield source sources) =
     yield_from source (Yield ''\<newline>\<newline>'' (concatenate sources))"
| "concatenate (Raise e) = Raise e"

subsection \<open>Sanitize rules\<close>

text \<open>
  The loop of \<open>rule__code_blocks\<close>, with the variable \<open>code_block_language\<close> as its first
  argument. Unpacking the result of \<open>rsplit\<close> into two names raises \<open>ValueError\<close> unless
  it has two elements.
\<close>

definition is_new_file :: "string \<Rightarrow> bool" where
  "is_new_file line = startswith line (take (length FILE_HEADER - 5) FILE_HEADER)"

definition is_code_block_shorthand :: "string \<Rightarrow> bool" where
  "is_code_block_shorthand line =
     (endswith line ''::\<newline>'' \<and> \<not> startswith (strip line) ''..'')"

fun code_blocks_loop :: "string \<Rightarrow> string gen \<Rightarrow> string gen" where
  "code_blocks_loop code_block_language Done = Done"
| "code_blocks_loop code_block_language (Raise e) = Raise e"
| "code_blocks_loop code_block_language (Yield line lines) =
     (if startswith line ''.. highlight:: '' then
        (case rsplit_max1 line of
           [_, language] \<Rightarrow> code_blocks_loop language lines
         | _ \<Rightarrow> Raise ValueError)
      else
        let language = (if is_new_file line then ''python'' else code_block_language) in
        if is_code_block_shorthand line then
          Yield (replace line ''::\<newline>'' ''\<newline>'')
            (Yield (percent ''\<newline>.. code-block:: %s\<newline>'' language)
               (code_blocks_loop language lines))
        else Yield line (code_blocks_loop language lines))"

definition rule__code_blocks :: "string gen \<Rightarrow> string gen" where
  "rule__code_blocks lines = code_blocks_loop ''python'' lines"

primrec rule__other_rules :: "string gen \<Rightarrow> string gen" where
  "rule__other_rules Done = Done"
| "rule__other_rules (Raise e) = Raise e"
| "rule__other_rules (Yield line lines) =
     (if startswith line '':orphan:'' then rule__other_rules lines
      else Yield line (rule__other_rules lines))"

subsection \<open>Pipeline\<close>

text \<open>
  \<open>reduce(function, sequence, initial)\<close> of functools. The value passed along a pipeline
  is \<open>None\<close> or a generator; a step is a generator function, so calling it gives a
  generator. \<open>yield from\<close> of \<open>None\<close> raises \<open>TypeError\<close>.
\<close>

fun reduce :: "('b \<Rightarrow> 'a \<Rightarrow> 'b) \<Rightarrow> 'a list \<Rightarrow> 'b \<Rightarrow> 'b" where
  "reduce f [] acc = acc"
| "reduce f (x # xs) acc = reduce f xs (f acc x)"

definition apply_step :: "'a gen option \<Rightarrow> ('a gen option \<Rightarrow> 'a gen) \<Rightarrow> 'a gen option" where
  "apply_step result step = Some (yield_from (step result) Done)"

definition pipeline :: "('a gen option \<Rightarrow> 'a gen) list \<Rightarrow> 'a gen option \<Rightarrow> 'a gen" where
  "pipeline steps initial =
     (case reduce apply_step steps initial of
        None \<Rightarrow> Raise TypeError
      | Some g \<Rightarrow> yield_from g Done)"

definition sanitize :: "string gen \<Rightarrow> string gen" where
  "sanitize lines =
     yield_from (pipeline [\<lambda>r. case r of None \<Rightarrow> Raise TypeError | Some g \<Rightarrow> rule__code_blocks g,
                           \<lambda>r. case r of None \<Rightarrow> Raise TypeError | Some g \<Rightarrow> rule__other_rules g]
                          (Some lines)) Done"

subsection \<open>Notions used to state the properties\<close>

text \<open>
  The value of \<open>code_block_language\<close> after the loop of \<open>rule__code_blocks\<close> has gone
  through \<open>lines\<close>, starting from the given one: a highlight directive sets it to the
  last token of its line, a header line sets it back to \<open>python\<close>.
\<close>

fun language_after :: "string \<Rightarrow> string list \<Rightarrow> string" where
  "language_after code_block_language [] = code_block_language"
| "language_after code_block_language (line # lines) =
     language_after
       (if startswith line ''.. highlight:: '' then last_token line
        else if is_new_file line then ''python''
        else code_block_language) lines"

text \<open>
  A file system in which no file exists, one with a single file, and one with a single
  file whose first line ends with CR LF.
\<close>

definition no_files :: "string \<Rightarrow> string option" where
  "no_files file_name = None"

definition one_file :: "string \<Rightarrow> string option" where
  "one_file file_name =
     (if file_name = ''usage.rst'' then Some ''Usage\<newline>=====\<newline>last'' else None)"

definition crlf_file :: "string \<Rightarrow> string option" where
  "crlf_file file_name =
     (if file_name = ''usage.rst'' then Some (''Usage'' @ [CHR 0x0D, CHR 0x0A] @ ''last'') else None)"

text \<open>
  An element is a single line: no line break inside it, and at its end nothing, one
  line break character, or CR LF.
\<close>

definition one_line :: "string \<Rightarrow> bool" where
  "one_line l =
     (let ending = dropWhile (\<lambda>c. \<not> is_linebreak c) l
      in ending = [] \<or> ending = [CHR 0x0D, CHR 0x0A] \<or> length ending = 1)"

text \<open>
  How many elements \<open>concatenate\<close> adds to the lines of the fragments \<open>srcs\<close>: the length
  of its output minus the number of lines that went in.
\<close>

definition separators_inserted :: "string list list \<Rightarrow> nat" where
  "separators_inserted srcs =
     length (items (concatenate (of_list (map of_list srcs)))) - length (concat srcs)"

text \<open>
  The pipeline as the specification words it: the initial input fed through the first
  stage, that output through the second, and so on, \<open>s\<^sub>n (\<dots> (s\<^sub>2 (s\<^sub>1 initial)))\<close>;
  and as the composition of the stages, the last one outermost.
\<close>

definition feed_through :: "('a gen option \<Rightarrow> 'a gen) list \<Rightarrow> 'a gen option \<Rightarrow> 'a gen option" where
  "feed_through steps initial = foldr (\<lambda>step fed. Some (step fed)) (rev steps) initial"

definition composed :: "('a gen option \<Rightarrow> 'a gen) list \<Rightarrow> 'a gen option \<Rightarrow> 'a gen option" where
  "composed steps = foldr (\<lambda>step later. later \<circ> Some \<circ> step) steps id"

section \<open>Properties\<close>

lemma yield_from_Done [simp]: "yield_from g Done = g"
  by (induction g) simp_all

subsection \<open>Generators and formats\<close>

lemma items_of_list [simp]: "items (of_list xs) = xs"
  by (induction xs) simp_all

lemma raised_of_list [simp]: "raised (of_list xs) = None"
  by (induction xs) simp_all

lemma yield_from_of_list [simp]: "yield_from (of_list xs) (of_list ys) = of_list (xs @ ys)"
  by (induction xs) simp_all

lemma percent_FILE_HEADER: "percent FILE_HEADER p = ''.. Source defined in '' @ p @ ''\<newline>\<newline>''"
  by (simp add: FILE_HEADER_def)

lemma percent_code_block:
  "percent ''\<newline>.. code-block:: %s\<newline>'' l = ''\<newline>.. code-block:: '' @ l @ ''\<newline>''"
  by simp

subsection \<open>The directive-stripping rule\<close>

lemma other_rules_items:
  "items (rule__other_rules lines) = filter (\<lambda>l. \<not> startswith l '':orphan:'') (items lines)"
  by (induction lines) simp_all

lemma other_rules_raised: "raised (rule__other_rules lines) = raised lines"
  by (induction lines) simp_all

lemma other_rules_yield_from:
  "rule__other_rules (yield_from g lines) =
     (case raised g of None \<Rightarrow> yield_from (rule__other_rules g) (rule__other_rules lines)
                     | Some e \<Rightarrow> rule__other_rules g)"
  by (induction g) (simp_all split: option.split)

text \<open>
  C8. Whatever the input stream of \<open>rule__other_rules\<close>, the lines it yields are the
  input's lines that do not start with \<open>:orphan:\<close>, unchanged and in their order; an
  exception of the input is passed on; and the rule keeps no state: what it does to the
  rest of a stream does not depend on the lines before.
\<close>

theorem rule__other_rules_strips_orphan:
  "items (rule__other_rules lines) = filter (\<lambda>l. \<not> startswith l '':orphan:'') (items lines)
   \<and> raised (rule__other_rules lines) = raised lines
   \<and> rule__other_rules (yield_from (of_list xs) lines) =
       yield_from (rule__other_rules (of_list xs)) (rule__other_rules lines)"
  by (simp add: other_rules_items other_rules_raised other_rules_yield_from)

subsection \<open>The concatenator\<close>

lemma concatenate_of_lists:
  "concatenate (of_list (map of_list srcs)) = of_list (concat (map (\<lambda>s. s @ [''\<newline>\<newline>'']) srcs))"
proof (induction srcs)
  case Nil
  show ?case by simp
next
  case (Cons s srcs)
  have "yield_from (of_list s) (Yield ''\<newline>\<newline>'' (of_list ys)) = of_list (s @ ''\<newline>\<newline>'' # ys)" for ys
    using yield_from_of_list [of s "''\<newline>\<newline>'' # ys"] by simp
  with Cons show ?case by simp
qed

lemma length_concat_sep:
  "length (concat (map (\<lambda>s. s @ [sep]) srcs)) = length (concat srcs) + length srcs"
  by (induction srcs) simp_all

text \<open>
  C1, as the code has it. For N fragments the combined stream is each fragment's lines
  followed by one separator element, the string of two line feeds: N separators in all,
  one after every fragment, the last included, and nothing else is added. For no fragment
  the stream is empty.
\<close>

theorem concatenate_separator_after_each:
  "concatenate (of_list (map of_list srcs)) = of_list (concat (map (\<lambda>s. s @ [''\<newline>\<newline>'']) srcs))
   \<and> separators_inserted srcs = length srcs
   \<and> concatenate (of_list []) = Done"
  by (simp add: concatenate_of_lists separators_inserted_def length_concat_sep)

text \<open>
  C1 as stated fails for one fragment of one line: one separator is inserted, not
  N - 1 = 0, and it comes after the last fragment.
\<close>

theorem concatenate_separator_counterexample:
  "\<not> (separators_inserted [[''a\<newline>'']] = length [[''a\<newline>'']] - 1)
   \<and> items (concatenate (of_list [of_list [''a\<newline>'']])) = [''a\<newline>'', ''\<newline>\<newline>'']"
  by (simp add: separators_inserted_def)

subsection \<open>The source reader\<close>

text \<open>
  C5, as the code has it. For a file that does not exist, the first pull of \<open>read_file\<close>
  yields the header line, and the second pull raises \<open>FileNotFoundError\<close>: the file is
  opened after the header has been yielded.
\<close>

theorem read_file_missing_raises_on_second_pull:
  "fs file_name = None \<Longrightarrow>
     pull 0 (read_file relpath_project fs file_name)
       = Item (''.. Source defined in '' @ relpath_project file_name @ ''\<newline>\<newline>'')
     \<and> pull 1 (read_file relpath_project fs file_name) = Raised FileNotFoundError"
  by (simp add: read_file_def percent_FILE_HEADER)

text \<open>C5, witness: the file \<open>missing.rst\<close> where no file exists.\<close>

theorem read_file_missing_raises_on_second_pull_witness:
  "no_files ''missing.rst'' = None
   \<and> pull 0 (read_file id no_files ''missing.rst'') = Item ''.. Source defined in missing.rst\<newline>\<newline>''
   \<and> pull 1 (read_file id no_files ''missing.rst'') = Raised FileNotFoundError"
  using read_file_missing_raises_on_second_pull [of no_files "''missing.rst''" id]
  by (simp add: no_files_def)

text \<open>C5 as stated fails: the first pull on a missing file does not raise.\<close>

theorem read_file_missing_first_pull_counterexample:
  "no_files ''missing.rst'' = None
   \<and> pull 0 (read_file id no_files ''missing.rst'') \<noteq> Raised FileNotFoundError"
  by (simp add: read_file_def no_files_def)

lemma take1_eq: "take (Suc 0) cs = [x] \<Longrightarrow> cs = x # drop (Suc 0) cs"
  by (cases cs) simp_all

lemma concat_splitlines_from: "concat (splitlines_from cur s) = cur @ s"
proof (induction cur s rule: splitlines_from.induct)
  case (1 cur)
  show ?case by simp
next
  case (2 cur c cs)
  show ?case
  proof (cases "c = CHR 0x0D \<and> take 1 cs = [CHR 0x0A]")
    case True
    then have "take (Suc 0) cs = [CHR 0x0A]" by simp
    then have "cs = CHR 0x0A # drop (Suc 0) cs" by (rule take1_eq)
    then have "cur @ c # cs = cur @ [c, CHR 0x0A] @ drop 1 cs" by simp
    with True 2 show ?thesis by simp
  next
    case False
    with 2 show ?thesis by (cases "is_linebreak c") auto
  qed
qed

lemma splitlines_from_terminated:
  "\<forall>l\<in>set (butlast (splitlines_from cur s)). l \<noteq> [] \<and> is_linebreak (last l)"
proof (induction cur s rule: splitlines_from.induct)
  case (1 cur)
  show ?case by simp
next
  case (2 cur c cs)
  show ?case
  proof (cases "c = CHR 0x0D \<and> take 1 cs = [CHR 0x0A]")
    case True
    with 2 show ?thesis by (simp add: is_linebreak_def)
  next
    case False
    with 2 show ?thesis by (cases "is_linebreak c") auto
  qed
qed

lemma one_line_plain: "\<forall>c\<in>set cur. \<not> is_linebreak c \<Longrightarrow> one_line cur"
  by (simp add: one_line_def)

lemma one_line_ended:
  "\<forall>c\<in>set cur. \<not> is_linebreak c \<Longrightarrow> is_linebreak x \<Longrightarrow> one_line (cur @ [x])"
  by (simp add: one_line_def dropWhile_append)

lemma one_line_crlf:
  "\<forall>c\<in>set cur. \<not> is_linebreak c \<Longrightarrow> one_line (cur @ [CHR 0x0D, CHR 0x0A])"
  by (simp add: one_line_def dropWhile_append is_linebreak_def)

lemma splitlines_from_one_line:
  "\<forall>c\<in>set cur. \<not> is_linebreak c \<Longrightarrow>
     \<forall>l\<in>set (splitlines_from cur s). l \<noteq> [] \<and> one_line l"
proof (induction cur s rule: splitlines_from.induct)
  case (1 cur)
  then show ?case by (simp add: one_line_plain)
next
  case (2 cur c cs)
  show ?case
  proof (cases "c = CHR 0x0D \<and> take 1 cs = [CHR 0x0A]")
    case True
    with 2 show ?thesis by (simp add: one_line_crlf)
  next
    case False
    show ?thesis
    proof (cases "is_linebreak c")
      case True
      with False 2 show ?thesis by (auto simp: one_line_ended)
    next
      case nb: False
      with "2.prems" have "\<forall>x\<in>set (cur @ [c]). \<not> is_linebreak x" by simp
      with False nb "2.IH"(3) show ?thesis by auto
    qed
  qed
qed

lemma universal_newlines_no_CR: "CHR 0x0D \<notin> set (universal_newlines s)"
  by (induction s rule: universal_newlines.induct) simp_all

lemma universal_newlines_id: "CHR 0x0D \<notin> set s \<Longrightarrow> universal_newlines s = s"
  by (induction s) auto

lemma concat_file_lines_from: "concat (file_lines_from cur s) = cur @ s"
  by (induction cur s rule: file_lines_from.induct) simp_all

lemma file_lines_from_terminated:
  "\<forall>l\<in>set (butlast (file_lines_from cur s)). l \<noteq> [] \<and> last l = CHR ''\<newline>''"
  by (induction cur s rule: file_lines_from.induct) simp_all

lemma file_lines_from_one_line:
  "CHR ''\<newline>'' \<notin> set cur \<Longrightarrow>
     \<forall>l\<in>set (file_lines_from cur s). l \<noteq> [] \<and> CHR ''\<newline>'' \<notin> set (butlast l)"
proof (induction cur s rule: file_lines_from.induct)
  case (1 cur)
  then show ?case by (auto dest: in_set_butlastD)
next
  case (2 cur c cs)
  then show ?case by (cases "c = CHR 0x0A") simp_all
qed

lemma file_lines_no_CR: "l \<in> set (file_lines content) \<Longrightarrow> CHR 0x0D \<notin> set l"
proof
  assume l: "l \<in> set (file_lines content)" and "CHR 0x0D \<in> set l"
  then have "CHR 0x0D \<in> set (concat (file_lines content))" by auto
  then have "CHR 0x0D \<in> set (universal_newlines content)"
    by (simp add: file_lines_def concat_file_lines_from)
  then show False by (simp add: universal_newlines_no_CR)
qed

text \<open>
  C7, as the code has it. The stream of \<open>read_text\<close>, and that of \<open>read_file\<close> (and
  \<open>read_source\<close>) on a file that exists, is the header line built from the relative
  path, followed by the lines of the content in their order. For a literal text every
  element is one line with its own terminator: the lines put together give the text
  back, and every line but the last ends with a line break. For a file the text is read
  with universal newlines: the lines put together give the content with CR LF and CR
  turned into LF, every element is one line without CR, every line but the last ends
  with LF, and a content without CR is given back as it is.
\<close>

theorem reader_header_then_lines:
  "read_text relpath_project this_file text
     = Yield (''.. Source defined in '' @ relpath_project this_file @ ''\<newline>\<newline>'')
         (of_list (splitlines_keepends text))
   \<and> concat (splitlines_keepends text) = text
   \<and> (\<forall>l\<in>set (splitlines_keepends text). l \<noteq> [] \<and> one_line l)
   \<and> (\<forall>l\<in>set (butlast (splitlines_keepends text)). is_linebreak (last l))
   \<and> (fs file_name = Some content \<longrightarrow>
        read_file relpath_project fs file_name
          = Yield (''.. Source defined in '' @ relpath_project file_name @ ''\<newline>\<newline>'')
              (of_list (file_lines content)))
   \<and> concat (file_lines content) = universal_newlines content
   \<and> (CHR 0x0D \<notin> set content \<longrightarrow> concat (file_lines content) = content)
   \<and> (\<forall>l\<in>set (file_lines content).
         l \<noteq> [] \<and> CHR ''\<newline>'' \<notin> set (butlast l) \<and> CHR 0x0D \<notin> set l)
   \<and> (\<forall>l\<in>set (butlast (file_lines content)). last l = CHR ''\<newline>'')
   \<and> read_source SOURCE relpath_project fs file_name
       = read_file relpath_project fs (SOURCE file_name)"
proof -
  have "read_text relpath_project this_file text
     = Yield (''.. Source defined in '' @ relpath_project this_file @ ''\<newline>\<newline>'')
         (of_list (splitlines_keepends text))"
    by (simp add: read_text_def percent_FILE_HEADER)
  moreover have "concat (splitlines_keepends text) = text"
    by (simp add: splitlines_keepends_def concat_splitlines_from)
  moreover have "\<forall>l\<in>set (splitlines_keepends text). l \<noteq> [] \<and> one_line l"
    unfolding splitlines_keepends_def by (rule splitlines_from_one_line) simp
  moreover have "\<forall>l\<in>set (butlast (splitlines_keepends text)). is_linebreak (last l)"
    using splitlines_from_terminated [of "[]" "text"] by (simp add: splitlines_keepends_def)
  moreover have "fs file_name = Some content \<longrightarrow>
        read_file relpath_project fs file_name
          = Yield (''.. Source defined in '' @ relpath_project file_name @ ''\<newline>\<newline>'')
              (of_list (file_lines content))"
    by (simp add: read_file_def percent_FILE_HEADER)
  moreover have "concat (file_lines content) = universal_newlines content"
    by (simp add: file_lines_def concat_file_lines_from)
  moreover have "CHR 0x0D \<notin> set content \<longrightarrow> concat (file_lines content) = content"
    by (simp add: file_lines_def concat_file_lines_from universal_newlines_id)
  moreover have "\<forall>l\<in>set (file_lines content).
         l \<noteq> [] \<and> CHR ''\<newline>'' \<notin> set (butlast l) \<and> CHR 0x0D \<notin> set l"
    using file_lines_from_one_line [of "[]" "universal_newlines content"] file_lines_no_CR [of _ content]
    by (auto simp: file_lines_def)
  moreover have "\<forall>l\<in>set (butlast (file_lines content)). last l = CHR ''\<newline>''"
    using file_lines_from_terminated [of "[]" "universal_newlines content"]
    by (simp add: file_lines_def)
  moreover have "read_source SOURCE relpath_project fs file_name
       = read_file relpath_project fs (SOURCE file_name)"
    by (simp add: read_source_def)
  ultimately show ?thesis by blast
qed

text \<open>
  C7, witness: a file of three lines, the last without line feed, and a literal text.
\<close>

theorem reader_header_then_lines_witness:
  "one_file ''usage.rst'' = Some ''Usage\<newline>=====\<newline>last''
   \<and> CHR 0x0D \<notin> set ''Usage\<newline>=====\<newline>last''
   \<and> read_file id one_file ''usage.rst''
       = of_list [''.. Source defined in usage.rst\<newline>\<newline>'', ''Usage\<newline>'', ''=====\<newline>'', ''last'']
   \<and> concat (file_lines ''Usage\<newline>=====\<newline>last'') = ''Usage\<newline>=====\<newline>last''
   \<and> read_text id ''docs/github_readme.py'' ''\<newline>.. role:: mod(literal)\<newline>''
       = of_list [''.. Source defined in docs/github_readme.py\<newline>\<newline>'', ''\<newline>'',
                  ''.. role:: mod(literal)\<newline>'']"
proof -
  have h: "one_file ''usage.rst'' = Some ''Usage\<newline>=====\<newline>last''"
    by (simp add: one_file_def)
  have n: "CHR 0x0D \<notin> set ''Usage\<newline>=====\<newline>last''" by simp
  have f: "file_lines ''Usage\<newline>=====\<newline>last'' = [''Usage\<newline>'', ''=====\<newline>'', ''last'']"
    by (simp add: file_lines_def)
  have t: "splitlines_keepends ''\<newline>.. role:: mod(literal)\<newline>'' = [''\<newline>'', ''.. role:: mod(literal)\<newline>'']"
    by (simp add: splitlines_keepends_def is_linebreak_def)
  show ?thesis
    using reader_header_then_lines [of id "''docs/github_readme.py''"
        "''\<newline>.. role:: mod(literal)\<newline>''" one_file "''usage.rst''" "''Usage\<newline>=====\<newline>last''"] h n
    unfolding f t by simp
qed

text \<open>
  C7 as stated fails for a file whose first line ends with CR LF: the line reaches the
  stream ending with LF alone, so it does not keep its original terminator, and the
  lines put together are not the content.
\<close>

theorem read_file_crlf_counterexample:
  "crlf_file ''usage.rst'' = Some (''Usage'' @ [CHR 0x0D, CHR 0x0A] @ ''last'')
   \<and> read_file id crlf_file ''usage.rst''
       = of_list [''.. Source defined in usage.rst\<newline>\<newline>'', ''Usage\<newline>'', ''last'']
   \<and> concat [''Usage\<newline>'', ''last''] \<noteq> ''Usage'' @ [CHR 0x0D, CHR 0x0A] @ ''last''"
  by (simp add: crlf_file_def read_file_def file_lines_def FILE_HEADER_def)

subsection \<open>The pipeline composer\<close>

lemma reduce_apply_step:
  "reduce apply_step steps initial = feed_through steps initial"
  by (induction steps arbitrary: initial) (simp_all add: feed_through_def apply_step_def)

lemma feed_through_composed: "feed_through steps initial = composed steps initial"
  by (induction steps arbitrary: initial) (simp_all add: feed_through_def composed_def)

lemma feed_through_None: "feed_through steps initial = None \<longleftrightarrow> steps = [] \<and> initial = None"
  by (cases steps rule: rev_cases) (simp_all add: feed_through_def)

text \<open>
  C9. For every list of stages and every initial input, \<open>pipeline\<close> produces the stream
  obtained by feeding the initial input through the stages in order, which is the
  composition of the stages applied to the initial input: the last stage is applied to
  what the stages before it give. The only input that gives no stream to yield from is
  no stage with no initial input, where \<open>pipeline\<close> raises \<open>TypeError\<close>.
\<close>

theorem pipeline_feeds_stages_in_order:
  "pipeline steps initial =
     (case feed_through steps initial of None \<Rightarrow> Raise TypeError | Some g \<Rightarrow> g)
   \<and> feed_through steps initial = composed steps initial
   \<and> feed_through (steps @ [step]) initial = Some (step (feed_through steps initial))
   \<and> feed_through [] initial = initial
   \<and> (feed_through steps initial = None \<longleftrightarrow> steps = [] \<and> initial = None)"
proof -
  have "pipeline steps initial =
          (case feed_through steps initial of None \<Rightarrow> Raise TypeError | Some g \<Rightarrow> g)"
    by (simp add: pipeline_def reduce_apply_step split: option.split)
  moreover have "feed_through (steps @ [step]) initial = Some (step (feed_through steps initial))"
    by (simp add: feed_through_def)
  moreover have "feed_through [] initial = initial"
    by (simp add: feed_through_def)
  ultimately show ?thesis
    using feed_through_composed [of steps initial] feed_through_None [of steps initial]
    by blast
qed

text \<open>\<open>sanitize\<close> runs the two rules, the code-block rule first.\<close>

lemma sanitize_rules: "sanitize lines = rule__other_rules (rule__code_blocks lines)"
  by (simp add: sanitize_def pipeline_def apply_step_def)

subsection \<open>The shorthand-expansion rule\<close>

lemma startswith_iff: "startswith s p \<longleftrightarrow> (\<exists>t. s = p @ t)"
proof
  assume "startswith s p"
  then have "s = p @ drop (length p) s"
    unfolding startswith_def by (metis append_take_drop_id)
  then show "\<exists>t. s = p @ t" ..
next
  assume "\<exists>t. s = p @ t"
  then show "startswith s p" by (auto simp: startswith_def)
qed

lemma strip_keeps_two:
  assumes "\<not> isspace a" and "\<not> isspace b"
  shows "\<exists>u. strip (a # b # t) = a # b # u"
proof -
  have "dropWhile isspace (rev t @ [b, a]) = dropWhile isspace (rev t) @ [b, a]
        \<or> dropWhile isspace (rev t @ [b, a]) = [b, a]"
    using assms by (simp add: dropWhile_append)
  then obtain zs where "dropWhile isspace (rev t @ [b, a]) = zs @ [b, a]"
    by (metis append_Nil)
  then have "strip (a # b # t) = a # b # rev zs"
    using assms by (simp add: strip_def)
  then show ?thesis ..
qed

lemma dots_survive_strip: "startswith s ''..'' \<Longrightarrow> startswith (strip s) ''..''"
proof -
  assume "startswith s ''..''"
  then obtain t where s: "s = CHR ''.'' # CHR ''.'' # t"
    by (auto simp: startswith_iff)
  have "\<not> isspace CHR ''.''" by (simp add: isspace_def)
  then obtain u where "strip (CHR ''.'' # CHR ''.'' # t) = CHR ''.'' # CHR ''.'' # u"
    using strip_keeps_two by blast
  with s show ?thesis by (simp add: startswith_def)
qed

lemma shorthand_not_highlight:
  "is_code_block_shorthand s \<Longrightarrow> \<not> startswith s ''.. highlight:: ''"
proof
  assume sh: "is_code_block_shorthand s" and "startswith s ''.. highlight:: ''"
  then have "startswith s ''..''" by (auto simp: startswith_iff)
  then have "startswith (strip s) ''..''" by (rule dots_survive_strip)
  with sh show False by (simp add: is_code_block_shorthand_def)
qed

lemma shorthand_not_new_file: "is_code_block_shorthand s \<Longrightarrow> \<not> is_new_file s"
proof
  assume sh: "is_code_block_shorthand s" and "is_new_file s"
  then have "startswith s ''..''"
    by (auto simp: startswith_iff is_new_file_def FILE_HEADER_def)
  then have "startswith (strip s) ''..''" by (rule dots_survive_strip)
  with sh show False by (simp add: is_code_block_shorthand_def)
qed

lemma new_file_not_highlight: "is_new_file s \<Longrightarrow> \<not> startswith s ''.. highlight:: ''"
  by (auto simp: startswith_iff is_new_file_def FILE_HEADER_def)

lemma rsplit_two:
  assumes a: "\<exists>x\<in>set a. \<not> isspace x" and sp: "isspace sp" and b: "\<exists>x\<in>set b. \<not> isspace x"
  shows "\<exists>u. rsplit_max1 (a @ sp # b) = [u, last_token (a @ sp # b)]"
proof -
  define R where "R = dropWhile isspace (rev b)"
  from b have r: "dropWhile isspace (rev (a @ sp # b)) = R @ sp # rev a"
    by (auto simp: dropWhile_append1 R_def)
  obtain c where c: "dropWhile (\<lambda>c. \<not> isspace c) (R @ sp # rev a) = c @ sp # rev a"
  proof (cases "\<forall>x\<in>set R. \<not> isspace x")
    case True
    then have "dropWhile (\<lambda>c. \<not> isspace c) (R @ sp # rev a) = [] @ sp # rev a"
      using sp by (simp add: dropWhile_append)
    then show ?thesis by (rule that)
  next
    case False
    then have "dropWhile (\<lambda>c. \<not> isspace c) (R @ sp # rev a)
                 = dropWhile (\<lambda>c. \<not> isspace c) R @ sp # rev a"
      by (auto simp: dropWhile_append)
    then show ?thesis by (rule that)
  qed
  have ne: "dropWhile isspace (c @ sp # rev a) \<noteq> []"
    using a by (auto simp: dropWhile_eq_Nil_conv)
  have "rsplit_max1 (a @ sp # b)
      = [rev (dropWhile isspace (c @ sp # rev a)), last_token (a @ sp # b)]"
    unfolding rsplit_max1_def Let_def r c using ne by simp
  then show ?thesis ..
qed

lemma highlight_rsplit:
  assumes "startswith line ''.. highlight:: ''"
  shows "\<exists>u. rsplit_max1 line = [u, last_token line]"
proof -
  from assms obtain t where "line = ''.. highlight:: '' @ t"
    by (auto simp: startswith_iff)
  then have line: "line = ''..'' @ CHR '' '' # (''highlight:: '' @ t)" by simp
  have "\<exists>x\<in>set ''..''. \<not> isspace x" by (simp add: isspace_def)
  moreover have "isspace CHR '' ''" by (simp add: isspace_def)
  moreover have "\<exists>x\<in>set (''highlight:: '' @ t). \<not> isspace x" by (simp add: isspace_def)
  ultimately show ?thesis unfolding line by (rule rsplit_two)
qed

lemma last_token_of_override:
  assumes "X \<noteq> []" and "\<forall>c\<in>set X. \<not> isspace c"
  shows "last_token (''.. highlight:: '' @ X @ ''\<newline>'') = X"
proof -
  obtain y ys where rX: "rev X = y # ys"
    using assms(1) by (cases "rev X") auto
  then have y: "\<not> isspace y" using assms(2) by (metis list.set_intros(1) set_rev)
  have nl: "isspace CHR ''\<newline>''" and sp: "isspace CHR '' ''" by (simp_all add: isspace_def)
  have "dropWhile isspace (rev (''.. highlight:: '' @ X @ ''\<newline>''))
          = rev X @ rev ''.. highlight:: ''"
    using nl y by (simp add: rX)
  moreover have "takeWhile (\<lambda>c. \<not> isspace c) (rev X @ rev ''.. highlight:: '')
                   = rev X @ takeWhile (\<lambda>c. \<not> isspace c) (rev ''.. highlight:: '')"
    by (rule takeWhile_append2) (use assms(2) in auto)
  moreover have "takeWhile (\<lambda>c. \<not> isspace c) (rev ''.. highlight:: '') = []"
    using sp by simp
  ultimately show ?thesis by (simp add: last_token_def)
qed

lemma replace_shorthand:
  "CHR ''\<newline>'' \<notin> set foo \<Longrightarrow> replace (foo @ ''::\<newline>'') ''::\<newline>'' ''\<newline>'' = foo @ ''\<newline>''"
proof (induction foo)
  case Nil
  show ?case by (simp add: startswith_def)
next
  case (Cons c foo)
  have "\<not> startswith (c # foo @ ''::\<newline>'') ''::\<newline>''"
  proof (cases foo)
    case Nil
    then show ?thesis by (simp add: startswith_def)
  next
    case (Cons d foo')
    with Cons.prems show ?thesis
      by (cases foo') (auto simp: startswith_def)
  qed
  with Cons show ?case by simp
qed

lemma code_blocks_override:
  assumes "startswith line ''.. highlight:: ''"
  shows "code_blocks_loop lang (Yield line lines) = code_blocks_loop (last_token line) lines"
proof -
  from highlight_rsplit [OF assms] obtain u where "rsplit_max1 line = [u, last_token line]" ..
  with assms show ?thesis by simp
qed

lemma code_blocks_shorthand:
  assumes "is_code_block_shorthand line"
  shows "code_blocks_loop lang (Yield line lines)
           = Yield (replace line ''::\<newline>'' ''\<newline>'')
               (Yield (''\<newline>.. code-block:: '' @ lang @ ''\<newline>'') (code_blocks_loop lang lines))"
  using assms shorthand_not_highlight [OF assms] shorthand_not_new_file [OF assms]
  by simp

lemma code_blocks_new_file:
  assumes "is_new_file line"
  shows "code_blocks_loop lang (Yield line lines) = Yield line (code_blocks_loop ''python'' lines)"
  using assms new_file_not_highlight [OF assms] shorthand_not_new_file [of line]
  by (auto simp: Let_def)

lemma code_blocks_yield_from:
  "code_blocks_loop lang (yield_from (of_list xs) g)
     = yield_from (code_blocks_loop lang (of_list xs)) (code_blocks_loop (language_after lang xs) g)"
proof (induction xs arbitrary: lang)
  case Nil
  show ?case by simp
next
  case (Cons line xs)
  show ?case
  proof (cases "startswith line ''.. highlight:: ''")
    case True
    then show ?thesis
      using Cons [of "last_token line"] by (simp add: code_blocks_override del: code_blocks_loop.simps)
  next
    case False
    then show ?thesis
      using Cons [of "if is_new_file line then ''python'' else lang"]
      by (simp add: Let_def)
  qed
qed

lemma language_after_no_override:
  "\<forall>l\<in>set xs. \<not> startswith l ''.. highlight:: '' \<Longrightarrow> language_after ''python'' xs = ''python''"
  by (induction xs) simp_all

text \<open>The rule raises nothing of its own: unpacking the split of an override line never fails.\<close>

lemma code_blocks_raised: "raised (code_blocks_loop lang lines) = raised lines"
proof (induction lines arbitrary: lang)
  case Done
  show ?case by simp
next
  case (Raise e)
  show ?case by simp
next
  case (Yield line lines)
  show ?case
  proof (cases "startswith line ''.. highlight:: ''")
    case True
    then show ?thesis
      using Yield [of "last_token line"] by (simp add: code_blocks_override del: code_blocks_loop.simps)
  next
    case False
    then show ?thesis
      using Yield [of "if is_new_file line then ''python'' else lang"] by (simp add: Let_def)
  qed
qed

lemma endswith_after_removal:
  "endswith (foo @ ''\<newline>'') ''::\<newline>'' \<longleftrightarrow> endswith foo ''::''"
proof (cases "2 \<le> length foo")
  case True
  then have "length foo + 1 - 3 = length foo - 2" by simp
  with True show ?thesis by (simp add: endswith_def)
next
  case False
  then have "foo = [] \<or> (\<exists>c. foo = [c])"
    by (cases foo; cases "tl foo") auto
  then show ?thesis by (auto simp: endswith_def)
qed

text \<open>
  C2, as the code has it. A line \<open>Foo::\<close> ending in a line feed, with no line feed
  inside \<open>Foo\<close> and whose stripped text does not start with two dots, met while the
  current language is the default \<open>python\<close>, gives exactly two elements: \<open>Foo\<close> with
  its line feed, and one element holding an empty line and the directive
  \<open>.. code-block:: python\<close>. Their text is that of the three lines of the claim. The
  line itself is not yielded. The first element ends with the shorthand terminator only
  when \<open>Foo\<close> itself ends with two colons.
\<close>

theorem shorthand_expands_to_two_elements:
  assumes "CHR ''\<newline>'' \<notin> set foo"
    and "\<not> startswith (strip (foo @ ''::\<newline>'')) ''..''"
  shows "code_blocks_loop ''python'' (Yield (foo @ ''::\<newline>'') lines)
           = Yield (foo @ ''\<newline>'')
               (Yield ''\<newline>.. code-block:: python\<newline>'' (code_blocks_loop ''python'' lines))
         \<and> rule__code_blocks (Yield (foo @ ''::\<newline>'') lines)
           = Yield (foo @ ''\<newline>'')
               (Yield ''\<newline>.. code-block:: python\<newline>'' (code_blocks_loop ''python'' lines))
         \<and> concat [foo @ ''\<newline>'', ''\<newline>.. code-block:: python\<newline>'']
           = concat [foo @ ''\<newline>'', ''\<newline>'', ''.. code-block:: python\<newline>'']
         \<and> (endswith (foo @ ''\<newline>'') ''::\<newline>'' \<longleftrightarrow> endswith foo ''::'')"
proof -
  have "is_code_block_shorthand (foo @ ''::\<newline>'')"
    using assms(2) by (simp add: is_code_block_shorthand_def endswith_def)
  then have "code_blocks_loop ''python'' (Yield (foo @ ''::\<newline>'') lines)
           = Yield (foo @ ''\<newline>'')
               (Yield ''\<newline>.. code-block:: python\<newline>'' (code_blocks_loop ''python'' lines))"
    using replace_shorthand [OF assms(1)] by (simp add: code_blocks_shorthand del: code_blocks_loop.simps)
  then show ?thesis
    using endswith_after_removal [of foo] by (simp add: rule__code_blocks_def del: code_blocks_loop.simps)
qed

text \<open>
  C2, witness: the line \<open>Foo::\<close>.
\<close>

theorem shorthand_expands_to_two_elements_witness:
  "CHR ''\<newline>'' \<notin> set ''Foo''
   \<and> \<not> startswith (strip ''Foo::\<newline>'') ''..''
   \<and> rule__code_blocks (of_list [''Foo::\<newline>''])
       = of_list [''Foo\<newline>'', ''\<newline>.. code-block:: python\<newline>'']
   \<and> \<not> endswith ''Foo\<newline>'' ''::\<newline>''"
proof -
  have h1: "CHR ''\<newline>'' \<notin> set ''Foo''" by simp
  have h2: "\<not> startswith (strip (''Foo'' @ ''::\<newline>'')) ''..''"
    by (simp add: strip_def isspace_def startswith_def)
  have e: "\<not> endswith ''Foo'' ''::''" by (simp add: endswith_def)
  show ?thesis
    using shorthand_expands_to_two_elements [OF h1 h2, of Done] h2 e by simp
qed

text \<open>
  C2 as stated fails: for \<open>Foo::\<close> the output is two elements, not the three lines
  as three elements, and for \<open>Foo::::\<close> the first element still ends with the
  shorthand terminator.
\<close>

theorem shorthand_three_elements_counterexample:
  "rule__code_blocks (of_list [''Foo::\<newline>''])
     \<noteq> of_list [''Foo\<newline>'', ''\<newline>'', ''.. code-block:: python\<newline>'']
   \<and> rule__code_blocks (of_list [''Foo::::\<newline>''])
       = of_list [''Foo::\<newline>'', ''\<newline>.. code-block:: python\<newline>'']
   \<and> endswith ''Foo::\<newline>'' ''::\<newline>''"
  by (simp add: rule__code_blocks_def startswith_def endswith_def is_new_file_def
        is_code_block_shorthand_def FILE_HEADER_def strip_def isspace_def)

text \<open>
  C3. An override line (one starting with \<open>.. highlight::\<close> and a space) yields
  nothing and sets the language to the last token of the line; a shorthand line right
  after it is rewritten with that language, whatever came before in the stream. For an
  override line made of the prefix, a token \<open>X\<close> without whitespace and a line feed, the
  last token is \<open>X\<close>.
\<close>

theorem override_then_shorthand:
  assumes "startswith ov ''.. highlight:: ''" and "is_code_block_shorthand s"
  shows "code_blocks_loop lang (Yield ov lines) = code_blocks_loop (last_token ov) lines
         \<and> rule__code_blocks (yield_from (of_list pre) (Yield ov (Yield s lines)))
           = yield_from (rule__code_blocks (of_list pre))
               (Yield (replace s ''::\<newline>'' ''\<newline>'')
                  (Yield (''\<newline>.. code-block:: '' @ last_token ov @ ''\<newline>'')
                     (code_blocks_loop (last_token ov) lines)))
         \<and> (X \<noteq> [] \<and> (\<forall>c\<in>set X. \<not> isspace c)
              \<longrightarrow> last_token (''.. highlight:: '' @ X @ ''\<newline>'') = X)"
proof -
  have "code_blocks_loop l (Yield ov (Yield s lines))
          = Yield (replace s ''::\<newline>'' ''\<newline>'')
              (Yield (''\<newline>.. code-block:: '' @ last_token ov @ ''\<newline>'')
                 (code_blocks_loop (last_token ov) lines))" for l
    by (simp only: code_blocks_override [OF assms(1)] code_blocks_shorthand [OF assms(2)])
  then have "rule__code_blocks (yield_from (of_list pre) (Yield ov (Yield s lines)))
           = yield_from (rule__code_blocks (of_list pre))
               (Yield (replace s ''::\<newline>'' ''\<newline>'')
                  (Yield (''\<newline>.. code-block:: '' @ last_token ov @ ''\<newline>'')
                     (code_blocks_loop (last_token ov) lines)))"
    by (simp only: rule__code_blocks_def code_blocks_yield_from)
  then show ?thesis
    using code_blocks_override [OF assms(1), of lang lines] last_token_of_override [of X]
    by blast
qed

text \<open>
  C3, witness: the override to \<open>rust\<close> followed by \<open>Bar::\<close>.
\<close>

theorem override_then_shorthand_witness:
  "startswith ''.. highlight:: rust\<newline>'' ''.. highlight:: ''
   \<and> is_code_block_shorthand ''Bar::\<newline>''
   \<and> rule__code_blocks (of_list [''.. highlight:: rust\<newline>'', ''Bar::\<newline>''])
       = of_list [''Bar\<newline>'', ''\<newline>.. code-block:: rust\<newline>'']"
proof -
  have h1: "startswith ''.. highlight:: rust\<newline>'' ''.. highlight:: ''"
    by (simp add: startswith_def)
  have h2: "is_code_block_shorthand ''Bar::\<newline>''"
    by (simp add: is_code_block_shorthand_def endswith_def strip_def isspace_def startswith_def)
  have t: "last_token ''.. highlight:: rust\<newline>'' = ''rust''"
    by (simp add: last_token_def isspace_def)
  have r: "replace ''Bar::\<newline>'' ''::\<newline>'' ''\<newline>'' = ''Bar\<newline>''"
    by (simp add: startswith_def)
  show ?thesis
    using override_then_shorthand [OF h1 h2, of "''python''" Done "[]" "''rust''"] h1 h2
    by (simp add: t r rule__code_blocks_def startswith_def del: code_blocks_loop.simps(3))
qed

text \<open>
  C4. In a stream where an override line and a shorthand line are followed, after any
  further lines, by a header line, lines without override and a second shorthand line,
  the first shorthand line is rewritten with the overridden language and the second
  with the default \<open>python\<close>. A header line is yielded unchanged and sets the language
  back to \<open>python\<close>.
\<close>

theorem header_resets_language:
  assumes "startswith ov ''.. highlight:: ''" and "is_code_block_shorthand s1"
    and "is_new_file h" and "\<forall>l\<in>set mid. \<not> startswith l ''.. highlight:: ''"
    and "is_code_block_shorthand s2"
  shows "rule__code_blocks
           (yield_from (of_list pre)
             (Yield ov (Yield s1 (yield_from (of_list post)
               (Yield h (yield_from (of_list mid) (Yield s2 lines)))))))
         = yield_from (rule__code_blocks (of_list pre))
             (Yield (replace s1 ''::\<newline>'' ''\<newline>'')
               (Yield (''\<newline>.. code-block:: '' @ last_token ov @ ''\<newline>'')
                 (yield_from (code_blocks_loop (last_token ov) (of_list post))
                   (Yield h
                     (yield_from (code_blocks_loop ''python'' (of_list mid))
                       (Yield (replace s2 ''::\<newline>'' ''\<newline>'')
                         (Yield ''\<newline>.. code-block:: python\<newline>''
                           (code_blocks_loop ''python'' lines))))))))
         \<and> code_blocks_loop lang (Yield h lines) = Yield h (code_blocks_loop ''python'' lines)"
proof -
  have tail: "code_blocks_loop (language_after ''python'' mid) (Yield s2 lines)
          = Yield (replace s2 ''::\<newline>'' ''\<newline>'')
              (Yield ''\<newline>.. code-block:: python\<newline>'' (code_blocks_loop ''python'' lines))"
    using code_blocks_shorthand [OF assms(5), of "''python''" lines]
    by (simp only: language_after_no_override [OF assms(4)] append.simps)
  have "code_blocks_loop l (Yield ov (Yield s1 (yield_from (of_list post)
               (Yield h (yield_from (of_list mid) (Yield s2 lines))))))
        = Yield (replace s1 ''::\<newline>'' ''\<newline>'')
               (Yield (''\<newline>.. code-block:: '' @ last_token ov @ ''\<newline>'')
                 (yield_from (code_blocks_loop (last_token ov) (of_list post))
                   (Yield h
                     (yield_from (code_blocks_loop ''python'' (of_list mid))
                       (Yield (replace s2 ''::\<newline>'' ''\<newline>'')
                         (Yield ''\<newline>.. code-block:: python\<newline>''
                           (code_blocks_loop ''python'' lines)))))))" for l
    by (simp only: code_blocks_override [OF assms(1)] code_blocks_shorthand [OF assms(2)]
          code_blocks_yield_from code_blocks_new_file [OF assms(3)] tail)
  then show ?thesis
    using code_blocks_new_file [OF assms(3), of lang lines]
    by (simp only: rule__code_blocks_def code_blocks_yield_from simp_thms)
qed

text \<open>
  C4, witness: two fragments, the first overriding to \<open>rust\<close>.
\<close>

theorem header_resets_language_witness:
  "startswith ''.. highlight:: rust\<newline>'' ''.. highlight:: ''
   \<and> is_code_block_shorthand ''Bar::\<newline>''
   \<and> is_new_file ''.. Source defined in docs/source/usage.rst\<newline>\<newline>''
   \<and> \<not> startswith ''Usage\<newline>'' ''.. highlight:: ''
   \<and> is_code_block_shorthand ''Example::\<newline>''
   \<and> rule__code_blocks
        (of_list [''.. highlight:: rust\<newline>'', ''Bar::\<newline>'', ''\<newline>\<newline>'',
                  ''.. Source defined in docs/source/usage.rst\<newline>\<newline>'', ''Usage\<newline>'',
                  ''Example::\<newline>''])
       = of_list [''Bar\<newline>'', ''\<newline>.. code-block:: rust\<newline>'', ''\<newline>\<newline>'',
                  ''.. Source defined in docs/source/usage.rst\<newline>\<newline>'', ''Usage\<newline>'',
                  ''Example\<newline>'', ''\<newline>.. code-block:: python\<newline>'']"
proof -
  have h1: "startswith ''.. highlight:: rust\<newline>'' ''.. highlight:: ''"
    by (simp add: startswith_def)
  have h2: "is_code_block_shorthand ''Bar::\<newline>''"
    by (simp add: is_code_block_shorthand_def endswith_def strip_def isspace_def startswith_def)
  have h3: "is_new_file ''.. Source defined in docs/source/usage.rst\<newline>\<newline>''"
    by (simp add: is_new_file_def startswith_def FILE_HEADER_def)
  have h4': "\<not> startswith ''Usage\<newline>'' ''.. highlight:: ''"
    by (simp add: startswith_def)
  then have h4: "\<forall>l\<in>set [''Usage\<newline>'']. \<not> startswith l ''.. highlight:: ''" by simp
  have h5: "is_code_block_shorthand ''Example::\<newline>''"
    by (simp add: is_code_block_shorthand_def endswith_def strip_def isspace_def startswith_def)
  have t: "last_token ''.. highlight:: rust\<newline>'' = ''rust''"
    by (simp add: last_token_def isspace_def)
  have r1: "replace ''Bar::\<newline>'' ''::\<newline>'' ''\<newline>'' = ''Bar\<newline>''"
    by (simp add: startswith_def)
  have r2: "replace ''Example::\<newline>'' ''::\<newline>'' ''\<newline>'' = ''Example\<newline>''"
    by (simp add: startswith_def)
  have p: "code_blocks_loop ''rust'' (of_list [''\<newline>\<newline>'']) = of_list [''\<newline>\<newline>'']"
    by (simp add: startswith_def is_new_file_def FILE_HEADER_def is_code_block_shorthand_def endswith_def)
  have m: "code_blocks_loop ''python'' (of_list [''Usage\<newline>'']) = of_list [''Usage\<newline>'']"
    by (simp add: startswith_def is_new_file_def FILE_HEADER_def is_code_block_shorthand_def endswith_def)
  have "rule__code_blocks
        (of_list [''.. highlight:: rust\<newline>'', ''Bar::\<newline>'', ''\<newline>\<newline>'',
                  ''.. Source defined in docs/source/usage.rst\<newline>\<newline>'', ''Usage\<newline>'',
                  ''Example::\<newline>''])
       = of_list [''Bar\<newline>'', ''\<newline>.. code-block:: rust\<newline>'', ''\<newline>\<newline>'',
                  ''.. Source defined in docs/source/usage.rst\<newline>\<newline>'', ''Usage\<newline>'',
                  ''Example\<newline>'', ''\<newline>.. code-block:: python\<newline>'']"
    using header_resets_language [OF h1 h2 h3 h4 h5, of "[]" "[''\<newline>\<newline>'']" Done "''python''"]
    unfolding t r1 r2 p m
    by (simp add: rule__code_blocks_def del: code_blocks_loop.simps(3))
  with h1 h2 h3 h4' h5 show ?thesis by blast
qed

text \<open>
  C10. A line that ends with the shorthand terminator, whose stripped text starts with
  two dots, and that is neither an override line nor a header line, is not a shorthand
  line for the rule and is yielded unchanged, the language staying as it was.
\<close>

theorem directive_line_kept:
  assumes "endswith line ''::\<newline>''" and "startswith (strip line) ''..''"
    and "\<not> startswith line ''.. highlight:: ''" and "\<not> is_new_file line"
  shows "\<not> is_code_block_shorthand line
         \<and> code_blocks_loop lang (Yield line lines) = Yield line (code_blocks_loop lang lines)"
  using assms by (simp add: is_code_block_shorthand_def)

text \<open>
  C10, witness: the indented directive \<open>.. note::\<close>.
\<close>

theorem directive_line_kept_witness:
  "endswith ''   .. note::\<newline>'' ''::\<newline>''
   \<and> startswith (strip ''   .. note::\<newline>'') ''..''
   \<and> \<not> startswith ''   .. note::\<newline>'' ''.. highlight:: ''
   \<and> \<not> is_new_file ''   .. note::\<newline>''
   \<and> rule__code_blocks (of_list [''   .. note::\<newline>'']) = of_list [''   .. note::\<newline>'']"
proof -
  have h1: "endswith ''   .. note::\<newline>'' ''::\<newline>''" by (simp add: endswith_def)
  have h2: "startswith (strip ''   .. note::\<newline>'') ''..''"
    by (simp add: strip_def isspace_def startswith_def)
  have h3: "\<not> startswith ''   .. note::\<newline>'' ''.. highlight:: ''" by (simp add: startswith_def)
  have h4: "\<not> is_new_file ''   .. note::\<newline>''"
    by (simp add: is_new_file_def startswith_def FILE_HEADER_def)
  show ?thesis
    using directive_line_kept [OF h1 h2 h3 h4, of "''python''" Done] h1 h2 h3 h4
    by (simp add: rule__code_blocks_def del: code_blocks_loop.simps(3))
qed

text \<open>
  C6, the code at an override line with no token: the line is dropped without an
  exception, and the language becomes \<open>highlight::\<close>, the last token of the prefix
  itself, so the next shorthand line gets the directive \<open>.. code-block:: highlight::\<close>.
\<close>

theorem override_without_token_sets_highlight:
  "rule__code_blocks (of_list [''.. highlight:: \<newline>'', ''Foo::\<newline>''])
     = of_list [''Foo\<newline>'', ''\<newline>.. code-block:: highlight::\<newline>'']
   \<and> raised (rule__code_blocks (of_list [''.. highlight:: \<newline>'', ''Foo::\<newline>''])) = None
   \<and> language_after ''python'' [''.. highlight:: \<newline>''] = ''highlight::''
   \<and> language_after ''python'' [''.. highlight:: ''] = ''highlight::''"
  by (simp add: rule__code_blocks_def startswith_def endswith_def is_new_file_def
        is_code_block_shorthand_def FILE_HEADER_def strip_def isspace_def rsplit_max1_def
        last_token_def)

end
